theory Spec2Isabelle
  imports Main "HOL-Library.Word" "HOL-Library.Monad_Syntax"
begin

unbundle bit_operations_syntax

section \<open>Data model\<close>

text \<open>
  The repository holds two listings of the parser. The first one (header with
  \<open>is_cmd\<close>, \<open>is_rtcmd\<close>, \<open>SYS_MESSAGES\<close>, \<open>RT_MESSAGES\<close>; the first listing of
  MIDIparser.cpp) and the second one (header with \<open>is_msg\<close>, \<open>is_rtmsg\<close>, \<open>SYS_MSGS\<close>,
  \<open>RT_MSGS\<close>; the second listing of MIDIparser.cpp). Where both listings use one name,
  the model suffixes it with \<open>_v1\<close> for the first listing and \<open>_v2\<close> for the second.

  \<open>uint8_t\<close> and \<open>int8_t\<close> are 8-bit words; an \<open>int8_t\<close> is read through \<open>sint\<close>
  (signed comparison \<open><s\<close>). The \<open>char\<close> argument of \<open>accept\<close> is only ever converted
  to \<open>uint8_t\<close>, which keeps its eight bits, so it is an 8-bit word too.
\<close>

type_synonym uint8_t = "8 word"
type_synonym int8_t = "8 word"

text \<open>The break points of \<open>enum Message\<close>: \<open>SYSEX = 0xF0\<close> and \<open>RT_CLOCK = 0xF8\<close>.\<close>

definition SYS_MESSAGES :: uint8_t where
  "SYS_MESSAGES = 0xF0"

definition RT_MESSAGES :: uint8_t where
  "RT_MESSAGES = 0xF8"

definition SYS_MSGS :: uint8_t where
  "SYS_MSGS = 0xF0"

definition RT_MSGS :: uint8_t where
  "RT_MSGS = 0xF8"

text \<open>The private members of \<open>class Parser\<close>.\<close>

record parser =
  mMessage :: uint8_t
  mExpected :: int8_t
  mData :: "uint8_t list"

section \<open>Message classifier\<close>

definition is_cmd :: "uint8_t \<Rightarrow> bool" where
  "is_cmd cmd \<longleftrightarrow> cmd AND 0x80 = 0x80"

definition is_syscmd :: "uint8_t \<Rightarrow> bool" where
  "is_syscmd cmd \<longleftrightarrow> cmd AND 0xF8 = 0xF0"

definition is_rtcmd :: "uint8_t \<Rightarrow> bool" where
  "is_rtcmd cmd \<longleftrightarrow> cmd AND 0xF8 = 0xF8"

definition is_msg :: "uint8_t \<Rightarrow> bool" where
  "is_msg msg \<longleftrightarrow> msg AND 0x80 = 0x80"

definition is_sysmsg :: "uint8_t \<Rightarrow> bool" where
  "is_sysmsg msg \<longleftrightarrow> msg AND 0xF8 = 0xF0"

definition is_rtmsg :: "uint8_t \<Rightarrow> bool" where
  "is_rtmsg msg \<longleftrightarrow> msg AND 0xF8 = 0xF8"

definition msg_value :: "uint8_t \<Rightarrow> uint8_t" where
  "msg_value msg = msg AND 0xF0"

definition msg_channel :: "uint8_t \<Rightarrow> uint8_t" where
  "msg_channel msg = msg AND 0x0F"

subsection \<open>Array accesses\<close>

text \<open>
  A C++ array has a fixed number of elements, and an access outside of them is undefined
  behaviour. The model makes it a value: \<open>None\<close>. The index is the \<open>int\<close> the C++
  expression computes after integer promotion.
\<close>

definition array_read :: "'a list \<Rightarrow> int \<Rightarrow> 'a option" where
  "array_read xs i = (if 0 \<le> i \<and> i < int (length xs) then Some (xs ! nat i) else None)"

definition array_write :: "'a list \<Rightarrow> int \<Rightarrow> 'a \<Rightarrow> 'a list option" where
  "array_write xs i v = (if 0 \<le> i \<and> i < int (length xs) then Some (xs[nat i := v]) else None)"

subsection \<open>First listing\<close>

definition midi_msg_bytes_v1 :: "int8_t list" where
  "midi_msg_bytes_v1 = [2, 2, 2, 2, 1, 2, 2]"

definition midi_sysmsg_bytes_v1 :: "int8_t list" where
  "midi_sysmsg_bytes_v1 = [-1, 1, 2, 1, 0, 0, 0]"

definition expected_bytes_v1 :: "uint8_t \<Rightarrow> int8_t option" where
  "expected_bytes_v1 message =
     (if message < SYS_MESSAGES then
        array_read midi_msg_bytes_v1 (drop_bit 4 (uint message) AND 7)
      else if message < RT_MESSAGES then
        array_read midi_sysmsg_bytes_v1 (uint message AND 0x7)
      else Some 0)"

subsection \<open>Second listing\<close>

definition midi_msg_bytes_v2 :: "int8_t list" where
  "midi_msg_bytes_v2 = [2, 2, 2, 2, 1, 1, 2]"

definition midi_sysmsg_bytes_v2 :: "int8_t list" where
  "midi_sysmsg_bytes_v2 = [-1, 1, 2, 1, 0, 0, 0, 0]"

definition expected_bytes_v2 :: "uint8_t \<Rightarrow> int8_t option" where
  "expected_bytes_v2 msg =
     (if msg < SYS_MSGS then
        array_read midi_msg_bytes_v2 (drop_bit 4 (uint msg) AND 7)
      else
        array_read midi_sysmsg_bytes_v2 (uint msg AND 0x7))"

section \<open>Parser state machine\<close>

definition reset :: parser where
  "reset = \<lparr>mMessage = 0, mExpected = 0, mData = [0, 0]\<rparr>"

text \<open>
  \<open>accept\<close> returns the new state together with the returned byte, or \<open>None\<close> when an
  array access leaves its array. \<open>accept_end\<close> is the tail of the function, the
  statements after the \<open>if ... else if ...\<close>: the completion test, the re-arming of
  \<open>mExpected\<close> and the two last \<open>return\<close>s.
\<close>

definition accept_end_v1 :: "parser \<Rightarrow> (parser \<times> uint8_t) option" where
  "accept_end_v1 s =
     (if mExpected s = 0 then
        do { e \<leftarrow> expected_bytes_v1 (mMessage s);
             Some (s\<lparr>mExpected := e\<rparr>, mMessage s) }
      else Some (s, 0))"

definition accept_v1 :: "parser \<Rightarrow> uint8_t \<Rightarrow> (parser \<times> uint8_t) option" where
  "accept_v1 s midiByte =
     (if is_rtcmd midiByte then Some (s, midiByte)
      else if is_cmd midiByte then
        do { e \<leftarrow> expected_bytes_v1 midiByte;
             let s1 = s\<lparr>mMessage := midiByte, mExpected := e\<rparr> in
             if e <s 0 then Some (s1, mMessage s1) else accept_end_v1 s1 }
      else if 0 <s mExpected s then
        do { d \<leftarrow> array_write (mData s) (2 - sint (mExpected s)) midiByte;
             accept_end_v1 (s\<lparr>mData := d, mExpected := mExpected s - 1\<rparr>) }
      else accept_end_v1 s)"

definition accept_end_v2 :: "parser \<Rightarrow> (parser \<times> uint8_t) option" where
  "accept_end_v2 s =
     (if mExpected s = 0 then
        do { e \<leftarrow> expected_bytes_v2 (mMessage s);
             Some (s\<lparr>mExpected := e\<rparr>, mMessage s) }
      else Some (s, 0))"

definition accept_v2 :: "parser \<Rightarrow> uint8_t \<Rightarrow> (parser \<times> uint8_t) option" where
  "accept_v2 s midiByte =
     (if is_rtmsg midiByte then Some (s, midiByte)
      else if is_msg midiByte then
        do { e \<leftarrow> expected_bytes_v2 midiByte;
             let s1 = s\<lparr>mMessage := midiByte, mExpected := e\<rparr> in
             if e <s 0 then Some (s1, mMessage s1) else accept_end_v2 s1 }
      else if 0 <s mExpected s then
        do { d \<leftarrow> array_write (mData s) (2 - sint (mExpected s)) midiByte;
             accept_end_v2 (s\<lparr>mData := d, mExpected := mExpected s - 1\<rparr>) }
      else accept_end_v2 s)"

text \<open>
  A caller feeds the bytes of a stream one at a time, as \<open>loop\<close> of the tracer sketch
  does; \<open>feed\<close> is the state after the whole list, and it is \<open>None\<close> once a call has
  left an array.
\<close>

fun feed_v1 :: "parser \<Rightarrow> uint8_t list \<Rightarrow> parser option" where
  "feed_v1 s [] = Some s"
| "feed_v1 s (b # bs) = (case accept_v1 s b of None \<Rightarrow> None | Some (s', r) \<Rightarrow> feed_v1 s' bs)"

fun feed_v2 :: "parser \<Rightarrow> uint8_t list \<Rightarrow> parser option" where
  "feed_v2 s [] = Some s"
| "feed_v2 s (b # bs) = (case accept_v2 s b of None \<Rightarrow> None | Some (s', r) \<Rightarrow> feed_v2 s' bs)"

section \<open>Well-formed parser states\<close>

text \<open>
  The states the parser keeps to: \<open>mMessage\<close> is the reset value or a message byte
  that is not a realtime byte, \<open>mExpected\<close> is one of -1, 0, 1 and 2, and \<open>mData\<close>
  has its two elements. The first listing has no table entry for \<open>ENDEX\<close>, so there
  \<open>mMessage\<close> cannot become \<open>0xF7\<close> without a read past the table.
\<close>

definition message_ok_v2 :: "uint8_t \<Rightarrow> bool" where
  "message_ok_v2 m \<longleftrightarrow> m = 0 \<or> (0x80 \<le> m \<and> m < 0xF8)"

definition parser_ok_v2 :: "parser \<Rightarrow> bool" where
  "parser_ok_v2 s \<longleftrightarrow>
     message_ok_v2 (mMessage s) \<and> mExpected s \<in> {-1, 0, 1, 2} \<and> length (mData s) = 2"

definition message_ok_v1 :: "uint8_t \<Rightarrow> bool" where
  "message_ok_v1 m \<longleftrightarrow> m = 0 \<or> (0x80 \<le> m \<and> m < 0xF7)"

definition parser_ok_v1 :: "parser \<Rightarrow> bool" where
  "parser_ok_v1 s \<longleftrightarrow>
     message_ok_v1 (mMessage s) \<and> mExpected s \<in> {-1, 0, 1, 2} \<and> length (mData s) = 2"

section \<open>Facts about the classifier\<close>

text \<open>
  A byte has 256 values, so a property of every byte can be settled by running the
  definitions on each of them.
\<close>

lemma all_bytes: "(\<forall>b::uint8_t. P b) \<longleftrightarrow> list_all (\<lambda>n. P (word_of_nat n)) [0..<256]"
proof
  assume "\<forall>b. P b"
  then show "list_all (\<lambda>n. P (word_of_nat n)) [0..<256]"
    by (simp add: list_all_iff)
next
  assume h: "list_all (\<lambda>n. P (word_of_nat n)) [0..<256]"
  show "\<forall>b. P b"
  proof
    fix b :: uint8_t
    have "unat b < 256"
      using unsigned_less [of b, where ?'a = nat] by simp
    moreover from h have "\<forall>n<256. P (word_of_nat n)"
      by (simp add: list_all_iff)
    ultimately have "P (word_of_nat (unat b))"
      by blast
    then show "P b"
      by simp
  qed
qed

lemma is_msg_iff: "is_msg b \<longleftrightarrow> 0x80 \<le> b"
proof -
  have "\<forall>b. is_msg b \<longleftrightarrow> 0x80 \<le> b"
    unfolding all_bytes by code_simp
  then show ?thesis by blast
qed

lemma is_rtmsg_iff: "is_rtmsg b \<longleftrightarrow> 0xF8 \<le> b"
proof -
  have "\<forall>b. is_rtmsg b \<longleftrightarrow> 0xF8 \<le> b"
    unfolding all_bytes by code_simp
  then show ?thesis by blast
qed

lemma is_cmd_iff: "is_cmd b \<longleftrightarrow> 0x80 \<le> b"
  using is_msg_iff [of b] by (simp add: is_cmd_def is_msg_def)

lemma is_rtcmd_iff: "is_rtcmd b \<longleftrightarrow> 0xF8 \<le> b"
  using is_rtmsg_iff [of b] by (simp add: is_rtcmd_def is_rtmsg_def)

lemma expected_bytes_v2_channel:
  "0x80 \<le> b \<Longrightarrow> b < 0xF0 \<Longrightarrow>
   expected_bytes_v2 b = Some (if msg_value b = 0xC0 \<or> msg_value b = 0xD0 then 1 else 2)"
proof -
  have "\<forall>b. 0x80 \<le> b \<and> b < 0xF0 \<longrightarrow>
     expected_bytes_v2 b = Some (if msg_value b = 0xC0 \<or> msg_value b = 0xD0 then 1 else 2)"
    unfolding all_bytes by code_simp
  then show "0x80 \<le> b \<Longrightarrow> b < 0xF0 \<Longrightarrow> ?thesis" by blast
qed

lemma expected_bytes_v1_channel:
  "0x80 \<le> b \<Longrightarrow> b < 0xF0 \<Longrightarrow>
   expected_bytes_v1 b = Some (if msg_value b = 0xC0 then 1 else 2)"
proof -
  have "\<forall>b. 0x80 \<le> b \<and> b < 0xF0 \<longrightarrow>
     expected_bytes_v1 b = Some (if msg_value b = 0xC0 then 1 else 2)"
    unfolding all_bytes by code_simp
  then show "0x80 \<le> b \<Longrightarrow> b < 0xF0 \<Longrightarrow> ?thesis" by blast
qed

lemma expected_bytes_v2_range:
  assumes "b = 0 \<or> 0x80 \<le> b"
  shows "\<exists>e. expected_bytes_v2 b = Some e \<and> e \<in> {-1, 0, 1, 2}"
proof -
  have "\<forall>b. b = 0 \<or> 0x80 \<le> b \<longrightarrow>
      (case expected_bytes_v2 b of None \<Rightarrow> False | Some e \<Rightarrow> e \<in> set [-1, 0, 1, 2])"
    unfolding all_bytes by code_simp
  with assms have "case expected_bytes_v2 b of None \<Rightarrow> False | Some e \<Rightarrow> e \<in> set [-1, 0, 1, 2]"
    by blast
  then show ?thesis
    by (cases "expected_bytes_v2 b") simp_all
qed

lemma expected_bytes_v1_range:
  assumes "b = 0 \<or> 0x80 \<le> b" and "b \<noteq> 0xF7"
  shows "\<exists>e. expected_bytes_v1 b = Some e \<and> e \<in> {-1, 0, 1, 2}"
proof -
  have "\<forall>b. (b = 0 \<or> 0x80 \<le> b) \<and> b \<noteq> 0xF7 \<longrightarrow>
      (case expected_bytes_v1 b of None \<Rightarrow> False | Some e \<Rightarrow> e \<in> set [-1, 0, 1, 2])"
    unfolding all_bytes by code_simp
  with assms have "case expected_bytes_v1 b of None \<Rightarrow> False | Some e \<Rightarrow> e \<in> set [-1, 0, 1, 2]"
    by blast
  then show ?thesis
    by (cases "expected_bytes_v1 b") simp_all
qed

section \<open>The second listing keeps its states well formed\<close>

lemma accept_end_v2_ok:
  assumes "parser_ok_v2 s"
  shows "\<exists>s' r. accept_end_v2 s = Some (s', r) \<and> parser_ok_v2 s' \<and> (r = 0 \<or> 0x80 \<le> r)
           \<and> mMessage s' = mMessage s \<and> mData s' = mData s"
proof (cases "mExpected s = 0")
  case True
  from assms have "mMessage s = 0 \<or> 0x80 \<le> mMessage s"
    by (auto simp: parser_ok_v2_def message_ok_v2_def)
  then obtain e where "expected_bytes_v2 (mMessage s) = Some e" and "e \<in> {-1, 0, 1, 2}"
    using expected_bytes_v2_range by blast
  with True assms show ?thesis
    by (auto simp: accept_end_v2_def parser_ok_v2_def message_ok_v2_def)
next
  case False
  with assms show ?thesis
    by (simp add: accept_end_v2_def)
qed

lemma accept_v2_ok:
  assumes "parser_ok_v2 s"
  shows "\<exists>s' r. accept_v2 s b = Some (s', r) \<and> parser_ok_v2 s' \<and> (r = 0 \<or> 0x80 \<le> r)
           \<and> (mMessage s' = mMessage s \<or> (0x80 \<le> b \<and> b < 0xF8))"
proof -
  consider (rt) "0xF8 \<le> b" | (msg) "0x80 \<le> b" "b < 0xF8"
    | (data) "b < 0x80" "mExpected s = 1 \<or> mExpected s = 2"
    | (drop) "b < 0x80" "mExpected s = 0 \<or> mExpected s = -1"
  proof -
    from assms have "mExpected s = 1 \<or> mExpected s = 2 \<or> mExpected s = 0 \<or> mExpected s = -1"
      by (auto simp: parser_ok_v2_def)
    moreover have "0xF8 \<le> b \<or> b < 0xF8" "0x80 \<le> b \<or> b < 0x80"
      by (simp_all add: le_less_linear)
    ultimately show thesis
      using rt msg data drop by blast
  qed
  then show ?thesis
  proof cases
    case rt
    moreover from rt have "0x80 \<le> b"
      by (simp add: word_le_nat_alt)
    ultimately show ?thesis
      using assms by (simp add: accept_v2_def is_rtmsg_iff)
  next
    case msg
    then obtain e where e: "expected_bytes_v2 b = Some e" "e \<in> {-1, 0, 1, 2}"
      using expected_bytes_v2_range by blast
    let ?s1 = "s\<lparr>mMessage := b, mExpected := e\<rparr>"
    from msg e assms have ok: "parser_ok_v2 ?s1"
      by (simp add: parser_ok_v2_def message_ok_v2_def)
    from msg have nrt: "\<not> 0xF8 \<le> b"
      by (simp add: not_le)
    show ?thesis
    proof (cases "e <s 0")
      case True
      with msg e ok nrt show ?thesis
        by (simp add: accept_v2_def is_rtmsg_iff is_msg_iff)
    next
      case False
      from accept_end_v2_ok [OF ok] obtain s' r where
        "accept_end_v2 ?s1 = Some (s', r)" "parser_ok_v2 s'" "r = 0 \<or> 0x80 \<le> r"
        by blast
      with False msg e nrt show ?thesis
        by (simp add: accept_v2_def is_rtmsg_iff is_msg_iff)
    qed
  next
    case data
    let ?i = "2 - sint (mExpected s)"
    from data assms have w: "array_write (mData s) ?i b = Some ((mData s)[nat ?i := b])"
      by (auto simp: array_write_def parser_ok_v2_def)
    let ?s1 = "s\<lparr>mData := (mData s)[nat ?i := b], mExpected := mExpected s - 1\<rparr>"
    from data assms have ok: "parser_ok_v2 ?s1"
      by (auto simp: parser_ok_v2_def)
    from accept_end_v2_ok [OF ok] obtain s' r where
      "accept_end_v2 ?s1 = Some (s', r)" "parser_ok_v2 s'" "r = 0 \<or> 0x80 \<le> r"
      "mMessage s' = mMessage s"
      by auto
    moreover from data have "0 <s mExpected s" "\<not> 0x80 \<le> b" "\<not> 0xF8 \<le> b"
      by (auto simp: word_le_nat_alt word_less_nat_alt word_sless_alt)
    ultimately show ?thesis
      using w by (simp add: accept_v2_def is_rtmsg_iff is_msg_iff)
  next
    case drop
    from accept_end_v2_ok [OF assms] obtain s' r where
      "accept_end_v2 s = Some (s', r)" "parser_ok_v2 s'" "r = 0 \<or> 0x80 \<le> r"
      "mMessage s' = mMessage s"
      by auto
    moreover from drop have "\<not> 0 <s mExpected s" "\<not> 0x80 \<le> b" "\<not> 0xF8 \<le> b"
      by (auto simp: word_le_nat_alt word_less_nat_alt word_sless_alt)
    ultimately show ?thesis
      by (simp add: accept_v2_def is_rtmsg_iff is_msg_iff)
  qed
qed

lemma reset_ok_v2: "parser_ok_v2 reset"
  by (simp add: parser_ok_v2_def message_ok_v2_def reset_def)

lemma feed_v2_ok:
  "parser_ok_v2 s \<Longrightarrow> \<exists>s'. feed_v2 s bs = Some s' \<and> parser_ok_v2 s'"
proof (induction bs arbitrary: s)
  case Nil
  then show ?case by simp
next
  case (Cons b bs)
  from accept_v2_ok [OF Cons.prems] obtain s1 r where
    "accept_v2 s b = Some (s1, r)" "parser_ok_v2 s1"
    by blast
  with Cons.IH [of s1] show ?case
    by simp
qed

section \<open>The first listing keeps its states well formed, up to \<open>ENDEX\<close>\<close>

lemma accept_end_v1_ok:
  assumes "parser_ok_v1 s"
  shows "\<exists>s' r. accept_end_v1 s = Some (s', r) \<and> parser_ok_v1 s' \<and> (r = 0 \<or> 0x80 \<le> r)
           \<and> mMessage s' = mMessage s \<and> mData s' = mData s"
proof (cases "mExpected s = 0")
  case True
  from assms have "mMessage s = 0 \<or> 0x80 \<le> mMessage s" and "mMessage s \<noteq> 0xF7"
    by (auto simp: parser_ok_v1_def message_ok_v1_def)
  then obtain e where "expected_bytes_v1 (mMessage s) = Some e" and "e \<in> {-1, 0, 1, 2}"
    using expected_bytes_v1_range by blast
  with True assms show ?thesis
    by (auto simp: accept_end_v1_def parser_ok_v1_def message_ok_v1_def)
next
  case False
  with assms show ?thesis
    by (simp add: accept_end_v1_def)
qed

lemma accept_v1_ok:
  assumes "parser_ok_v1 s" and "b \<noteq> 0xF7"
  shows "\<exists>s' r. accept_v1 s b = Some (s', r) \<and> parser_ok_v1 s' \<and> (r = 0 \<or> 0x80 \<le> r)
           \<and> (mMessage s' = mMessage s \<or> (0x80 \<le> b \<and> b < 0xF8))"
proof -
  consider (rt) "0xF8 \<le> b" | (msg) "0x80 \<le> b" "b < 0xF8"
    | (data) "b < 0x80" "mExpected s = 1 \<or> mExpected s = 2"
    | (drop) "b < 0x80" "mExpected s = 0 \<or> mExpected s = -1"
  proof -
    from assms have "mExpected s = 1 \<or> mExpected s = 2 \<or> mExpected s = 0 \<or> mExpected s = -1"
      by (auto simp: parser_ok_v1_def)
    moreover have "0xF8 \<le> b \<or> b < 0xF8" "0x80 \<le> b \<or> b < 0x80"
      by (simp_all add: le_less_linear)
    ultimately show thesis
      using rt msg data drop by blast
  qed
  then show ?thesis
  proof cases
    case rt
    moreover from rt have "0x80 \<le> b"
      by (simp add: word_le_nat_alt)
    ultimately show ?thesis
      using assms by (simp add: accept_v1_def is_rtcmd_iff)
  next
    case msg
    with assms obtain e where e: "expected_bytes_v1 b = Some e" "e \<in> {-1, 0, 1, 2}"
      using expected_bytes_v1_range by blast
    from msg assms have lt: "b < 0xF7"
      by (simp add: word_less_nat_alt word_unat_eq_iff)
    let ?s1 = "s\<lparr>mMessage := b, mExpected := e\<rparr>"
    from lt msg e assms have ok: "parser_ok_v1 ?s1"
      by (simp add: parser_ok_v1_def message_ok_v1_def)
    from msg have nrt: "\<not> 0xF8 \<le> b"
      by (simp add: not_le)
    show ?thesis
    proof (cases "e <s 0")
      case True
      with msg e ok nrt show ?thesis
        by (simp add: accept_v1_def is_rtcmd_iff is_cmd_iff)
    next
      case False
      from accept_end_v1_ok [OF ok] obtain s' r where
        "accept_end_v1 ?s1 = Some (s', r)" "parser_ok_v1 s'" "r = 0 \<or> 0x80 \<le> r"
        by blast
      with False msg e nrt show ?thesis
        by (simp add: accept_v1_def is_rtcmd_iff is_cmd_iff)
    qed
  next
    case data
    let ?i = "2 - sint (mExpected s)"
    from data assms have w: "array_write (mData s) ?i b = Some ((mData s)[nat ?i := b])"
      by (auto simp: array_write_def parser_ok_v1_def)
    let ?s1 = "s\<lparr>mData := (mData s)[nat ?i := b], mExpected := mExpected s - 1\<rparr>"
    from data assms have ok: "parser_ok_v1 ?s1"
      by (auto simp: parser_ok_v1_def)
    from accept_end_v1_ok [OF ok] obtain s' r where
      "accept_end_v1 ?s1 = Some (s', r)" "parser_ok_v1 s'" "r = 0 \<or> 0x80 \<le> r"
      "mMessage s' = mMessage s"
      by auto
    moreover from data have "0 <s mExpected s" "\<not> 0x80 \<le> b" "\<not> 0xF8 \<le> b"
      by (auto simp: word_le_nat_alt word_less_nat_alt word_sless_alt)
    ultimately show ?thesis
      using w by (simp add: accept_v1_def is_rtcmd_iff is_cmd_iff)
  next
    case drop
    from accept_end_v1_ok [OF assms(1)] obtain s' r where
      "accept_end_v1 s = Some (s', r)" "parser_ok_v1 s'" "r = 0 \<or> 0x80 \<le> r"
      "mMessage s' = mMessage s"
      by auto
    moreover from drop have "\<not> 0 <s mExpected s" "\<not> 0x80 \<le> b" "\<not> 0xF8 \<le> b"
      by (auto simp: word_le_nat_alt word_less_nat_alt word_sless_alt)
    ultimately show ?thesis
      by (simp add: accept_v1_def is_rtcmd_iff is_cmd_iff)
  qed
qed

lemma reset_ok_v1: "parser_ok_v1 reset"
  by (simp add: parser_ok_v1_def message_ok_v1_def reset_def)

lemma accept_v1_ENDEX: "accept_v1 s 0xF7 = None"
  by (simp add: accept_v1_def is_rtcmd_def is_cmd_def expected_bytes_v1_def SYS_MESSAGES_def
      RT_MESSAGES_def array_read_def midi_sysmsg_bytes_v1_def)

lemma feed_v1_ok:
  "parser_ok_v1 s \<Longrightarrow> feed_v1 s bs = Some s' \<Longrightarrow> parser_ok_v1 s'"
proof (induction bs arbitrary: s)
  case Nil
  then show ?case by simp
next
  case (Cons b bs)
  from Cons.prems(2) obtain s1 r where step: "accept_v1 s b = Some (s1, r)" and "feed_v1 s1 bs = Some s'"
    by (auto split: option.splits)
  from step have "b \<noteq> 0xF7"
    using accept_v1_ENDEX [of s] by auto
  with accept_v1_ok [OF Cons.prems(1)] step have "parser_ok_v1 s1"
    by fastforce
  with Cons.IH [of s1] \<open>feed_v1 s1 bs = Some s'\<close> show ?case
    by simp
qed

section \<open>Parameter counts\<close>

text \<open>
  What \<open>expected_bytes\<close> returns on the system-common bytes, in both listings. The
  first listing has seven entries and stops at \<open>TUNE_REQ\<close>.
\<close>

lemma expected_bytes_v2_system_common:
  "map expected_bytes_v2 [0xF0, 0xF1, 0xF2, 0xF3, 0xF4, 0xF5, 0xF6, 0xF7] =
   [Some (-1), Some 1, Some 2, Some 1, Some 0, Some 0, Some 0, Some 0]"
  by (simp add: expected_bytes_v2_def SYS_MSGS_def array_read_def midi_sysmsg_bytes_v2_def)

lemma expected_bytes_v1_system_common:
  "map expected_bytes_v1 [0xF0, 0xF1, 0xF2, 0xF3, 0xF4, 0xF5, 0xF6] =
   [Some (-1), Some 1, Some 2, Some 1, Some 0, Some 0, Some 0]"
  by (simp add: expected_bytes_v1_def SYS_MESSAGES_def RT_MESSAGES_def array_read_def
      midi_sysmsg_bytes_v1_def)

text \<open>
  The two index expressions, \<open>(msg >> 4) & 7\<close> and \<open>msg & 0x7\<close>, as arithmetic: on a
  channel message byte the first one is at most 6, and the second one is at most 7 on
  any byte.
\<close>

lemma and_7_eq_mod: "(k::int) AND 7 = k mod 8"
  using take_bit_eq_mask [of 3 k] by (simp add: take_bit_eq_mod mask_eq_exp_minus_1)

lemma channel_index_in_bounds:
  assumes "0x80 \<le> (b::uint8_t)" and "b < 0xF0"
  shows "0 \<le> drop_bit 4 (uint b) AND 7 \<and> drop_bit 4 (uint b) AND 7 < 7"
proof -
  define q where "q = uint b div 16"
  from assms have "128 \<le> uint b" and "uint b \<le> 239"
    by (simp_all add: word_le_def word_less_def)
  then have "8 \<le> q" and "q \<le> 14"
    unfolding q_def using zdiv_mono1 [of 128 "uint b" 16] zdiv_mono1 [of "uint b" 239 16]
    by simp_all
  then have "(q - 8) mod 8 = q - 8"
    by (intro mod_pos_pos_trivial) simp_all
  then have "q mod 8 = q - 8"
    by (simp add: minus_mod_self2)
  with \<open>q \<le> 14\<close> \<open>8 \<le> q\<close> have "0 \<le> q mod 8 \<and> q mod 8 < 7"
    by simp
  then show ?thesis
    by (simp add: and_7_eq_mod drop_bit_eq_div q_def)
qed

lemma system_index_in_bounds: "0 \<le> uint (b::uint8_t) AND 7 \<and> uint b AND 7 < 8"
  by (simp add: and_7_eq_mod)

lemma expected_bytes_v2_in_bounds:
  assumes "0x80 \<le> b"
  shows "expected_bytes_v2 b \<noteq> None"
proof (cases "b < 0xF0")
  case True
  with assms channel_index_in_bounds [of b] show ?thesis
    by (simp add: expected_bytes_v2_def SYS_MSGS_def array_read_def midi_msg_bytes_v2_def)
next
  case False
  with system_index_in_bounds [of b] show ?thesis
    by (simp add: expected_bytes_v2_def SYS_MSGS_def array_read_def midi_sysmsg_bytes_v2_def)
qed

text \<open>
  Claim C1: on every channel message byte (0x80 to 0xEF) \<open>expected_bytes\<close> selects by
  the opcode in the high nibble and returns 2, except for program change (0xC0) and
  channel pressure (0xD0), where it returns 1.

  The second listing does so (\<open>expected_bytes_v2_channel\<close>). The table of the first
  listing holds 2 in the slot of channel pressure, so the first listing returns 2
  on 0xD0 (and 2 or 1 as claimed on every other channel message byte,
  \<open>expected_bytes_v1_channel\<close>).
\<close>

theorem channel_pressure_count_v1: "expected_bytes_v1 0xD0 = Some 2 \<and> expected_bytes_v2 0xD0 = Some 1"
  by (simp add: expected_bytes_v1_def expected_bytes_v2_def SYS_MESSAGES_def SYS_MSGS_def
      array_read_def midi_msg_bytes_v1_def midi_msg_bytes_v2_def)

text \<open>
  Claim C2: on the system-common bytes (0xF0 to 0xF7) \<open>expected_bytes\<close> selects by the
  low three bits and returns -1 for \<open>SYSEX\<close>, 1 for the quarter frame, 2 for the song
  position pointer, 1 for song select, 0 for the two undefined bytes and for tune
  request, and 0 for \<open>ENDEX\<close>.

  The second listing does so (\<open>expected_bytes_v2_system_common\<close>), and the first one
  does on 0xF0 to 0xF6 (\<open>expected_bytes_v1_system_common\<close>). On \<open>ENDEX\<close> the first
  listing reads the eighth element of a table of seven: it returns no defined value.
\<close>

theorem ENDEX_count_v1: "expected_bytes_v1 0xF7 = None \<and> expected_bytes_v2 0xF7 = Some 0"
  by (simp add: expected_bytes_v1_def expected_bytes_v2_def SYS_MESSAGES_def RT_MESSAGES_def
      SYS_MSGS_def array_read_def midi_sysmsg_bytes_v1_def midi_sysmsg_bytes_v2_def)

text \<open>
  Claim C3: the two versions of the channel-message table agree in every slot except
  slot 5, the one of channel pressure, where the first listing has 2 and the second
  has 1.
\<close>

theorem tables_differ_at_channel_pressure:
  "length midi_msg_bytes_v1 = 7 \<and> length midi_msg_bytes_v2 = 7 \<and>
   midi_msg_bytes_v1 ! 5 = 2 \<and> midi_msg_bytes_v2 ! 5 = 1 \<and>
   (\<forall>i<7. i \<noteq> 5 \<longrightarrow> midi_msg_bytes_v1 ! i = midi_msg_bytes_v2 ! i)"
proof -
  have "midi_msg_bytes_v1 ! i = midi_msg_bytes_v2 ! i" if "i < 7" and "i \<noteq> 5" for i
  proof -
    from that have "i \<in> {0, 1, 2, 3, 4, 6}"
      by auto
    then show ?thesis
      by (auto simp: midi_msg_bytes_v1_def midi_msg_bytes_v2_def)
  qed
  then show ?thesis
    by (simp add: midi_msg_bytes_v1_def midi_msg_bytes_v2_def)
qed

theorem tables_differ_at_channel_pressure_witness:
  "(6::nat) < 7 \<and> (6::nat) \<noteq> 5 \<and> midi_msg_bytes_v1 ! 6 = midi_msg_bytes_v2 ! 6 \<and>
   midi_msg_bytes_v1 ! 5 \<noteq> midi_msg_bytes_v2 ! 5"
  using tables_differ_at_channel_pressure by simp

text \<open>
  Claim C9: for every byte from 0x80 to 0xF7 the table lookup of \<open>expected_bytes\<close>
  stays inside its table; in particular the index 7 that \<open>ENDEX\<close> selects is inside
  \<open>midi_sysmsg_bytes\<close> in both listings.

  It is so in the second listing (\<open>expected_bytes_v2_in_bounds\<close>), whose table has
  eight entries. The table of the first listing has seven, and index 7 is outside.
\<close>

theorem ENDEX_index_v1:
  "uint (0xF7 :: uint8_t) AND 7 = 7 \<and> length midi_sysmsg_bytes_v1 = 7 \<and>
   array_read midi_sysmsg_bytes_v1 (uint (0xF7 :: uint8_t) AND 7) = None \<and>
   length midi_sysmsg_bytes_v2 = 8 \<and>
   array_read midi_sysmsg_bytes_v2 (uint (0xF7 :: uint8_t) AND 7) = Some 0"
  by (simp add: array_read_def midi_sysmsg_bytes_v1_def midi_sysmsg_bytes_v2_def)

section \<open>The state machine\<close>

text \<open>The equations that run \<open>accept\<close> on a concrete state and byte.\<close>

lemmas eval_v2 = accept_v2_def accept_end_v2_def is_rtmsg_def is_msg_def expected_bytes_v2_def
  SYS_MSGS_def array_read_def array_write_def midi_msg_bytes_v2_def midi_sysmsg_bytes_v2_def
  word_sless_alt

lemmas eval_v1 = accept_v1_def accept_end_v1_def is_rtcmd_def is_cmd_def expected_bytes_v1_def
  SYS_MESSAGES_def RT_MESSAGES_def array_read_def array_write_def midi_msg_bytes_v1_def
  midi_sysmsg_bytes_v1_def word_sless_alt

text \<open>
  Claim C4: on a realtime byte (0xF8 to 0xFF), in every parser state, \<open>accept\<close> returns
  the byte at once and leaves \<open>mMessage\<close>, \<open>mExpected\<close> and both data bytes as they
  were. Both listings.
\<close>

theorem realtime_passthrough:
  assumes "0xF8 \<le> b"
  shows "is_rtmsg b \<and> accept_v2 s b = Some (s, b) \<and> is_rtcmd b \<and> accept_v1 s b = Some (s, b)"
  using assms by (simp add: accept_v2_def accept_v1_def is_rtmsg_iff is_rtcmd_iff)

theorem realtime_passthrough_witness:
  "(0xF8 :: uint8_t) \<le> 0xFE \<and>
   accept_v2 \<lparr>mMessage = 0x90, mExpected = 1, mData = [0x40, 0]\<rparr> 0xFE =
     Some (\<lparr>mMessage = 0x90, mExpected = 1, mData = [0x40, 0]\<rparr>, 0xFE) \<and>
   accept_v1 \<lparr>mMessage = 0x90, mExpected = 1, mData = [0x40, 0]\<rparr> 0xFE =
     Some (\<lparr>mMessage = 0x90, mExpected = 1, mData = [0x40, 0]\<rparr>, 0xFE)"
  using realtime_passthrough [of "0xFE" "\<lparr>mMessage = 0x90, mExpected = 1, mData = [0x40, 0]\<rparr>"]
  by simp

lemma data_byte: "b < 0x80 \<Longrightarrow> \<not> is_msg b \<and> \<not> is_rtmsg b"
  by (simp add: is_msg_iff is_rtmsg_iff word_le_nat_alt word_less_nat_alt)

lemma accept_v2_completed:
  assumes "accept_v2 s x = Some (s1, m)" and "0x80 \<le> m" and "m < 0xF0"
  shows "mMessage s1 = m \<and> expected_bytes_v2 m = Some (mExpected s1) \<and>
         length (mData s1) = length (mData s)"
proof -
  from assms(2,3) have m: "m \<noteq> 0" "\<not> 0xF8 \<le> m"
    by (auto simp: word_le_nat_alt word_less_nat_alt)
  show ?thesis
  proof (cases "is_rtmsg x")
    case True
    with assms(1) m show ?thesis
      by (simp add: accept_v2_def is_rtmsg_iff)
  next
    case False
    with assms(1) m show ?thesis
      by (auto simp: accept_v2_def accept_end_v2_def array_write_def Let_def
          split: if_splits Option.bind_splits)
  qed
qed

text \<open>
  Claim C5, running status: once \<open>accept\<close> has returned a channel message that takes
  two parameters as completed, two further data bytes, with no message byte between,
  give 0 for the first and the same message code for the second, and the two bytes
  are then \<open>mData[0]\<close> and \<open>mData[1]\<close>; \<open>mExpected\<close> is re-armed to 2 again. Stated
  on the second listing, for every state with its two data bytes and every call that
  returns such a message.
\<close>

theorem running_status:
  assumes "accept_v2 s x = Some (s1, m)"
    and "0x80 \<le> m" and "m < 0xF0" and "expected_bytes_v2 m = Some 2"
    and "c < 0x80" and "d < 0x80" and "length (mData s) = 2"
  shows "\<exists>s2 s3. accept_v2 s1 c = Some (s2, 0) \<and> accept_v2 s2 d = Some (s3, m) \<and>
           mData s3 = [c, d] \<and> mMessage s3 = m \<and> mExpected s3 = 2"
proof -
  from accept_v2_completed [OF assms(1-3)] assms(4,7)
  have s1: "mMessage s1 = m" "mExpected s1 = 2" "length (mData s1) = 2"
    by simp_all
  then obtain a b where ab: "mData s1 = [a, b]"
    by (cases "mData s1"; cases "tl (mData s1)") auto
  let ?s2 = "s1\<lparr>mData := [c, b], mExpected := 1\<rparr>"
  let ?s3 = "s1\<lparr>mData := [c, d], mExpected := 2\<rparr>"
  from s1 ab data_byte [OF assms(5)] have "accept_v2 s1 c = Some (?s2, 0)"
    by (simp add: accept_v2_def accept_end_v2_def array_write_def word_sless_alt)
  moreover from s1 assms(4) data_byte [OF assms(6)] have "accept_v2 ?s2 d = Some (?s3, m)"
    by (simp add: accept_v2_def accept_end_v2_def array_write_def word_sless_alt)
  ultimately show ?thesis
    using s1 by simp
qed

theorem running_status_witness:
  "accept_v2 \<lparr>mMessage = 0x90, mExpected = 1, mData = [0x40, 0]\<rparr> 0x7F =
     Some (\<lparr>mMessage = 0x90, mExpected = 2, mData = [0x40, 0x7F]\<rparr>, 0x90) \<and>
   (0x80 :: uint8_t) \<le> 0x90 \<and> (0x90 :: uint8_t) < 0xF0 \<and> expected_bytes_v2 0x90 = Some 2 \<and>
   (0x41 :: uint8_t) < 0x80 \<and> (0 :: uint8_t) < 0x80 \<and>
   accept_v2 \<lparr>mMessage = 0x90, mExpected = 2, mData = [0x40, 0x7F]\<rparr> 0x41 =
     Some (\<lparr>mMessage = 0x90, mExpected = 1, mData = [0x41, 0x7F]\<rparr>, 0) \<and>
   accept_v2 \<lparr>mMessage = 0x90, mExpected = 1, mData = [0x41, 0x7F]\<rparr> 0 =
     Some (\<lparr>mMessage = 0x90, mExpected = 2, mData = [0x41, 0]\<rparr>, 0x90)"
  using running_status [of "\<lparr>mMessage = 0x90, mExpected = 1, mData = [0x40, 0]\<rparr>" "0x7F"
      "\<lparr>mMessage = 0x90, mExpected = 2, mData = [0x40, 0x7F]\<rparr>" "0x90" "0x41" 0]
  by (simp add: eval_v2)

text \<open>
  The \<open>SYSEX\<close> passthrough in the second listing, from any state: \<open>SYSEX\<close> is returned
  at once, every data byte after it returns 0 and leaves the state as it is, and
  \<open>ENDEX\<close> is returned at once.
\<close>

lemma sysex_data_discarded_v2:
  assumes "mExpected s = -1" and "\<forall>d \<in> set ds. d < 0x80"
  shows "feed_v2 s ds = Some s"
  using assms(2)
proof (induction ds)
  case Nil
  then show ?case by simp
next
  case (Cons d ds)
  then have "d < 0x80"
    by simp
  with assms(1) have "accept_v2 s d = Some (s, 0)"
    using data_byte [of d] by (simp add: accept_v2_def accept_end_v2_def word_sless_alt)
  with Cons show ?case
    by simp
qed

lemma sysex_passthrough_v2:
  "accept_v2 s 0xF0 = Some (s\<lparr>mMessage := 0xF0, mExpected := -1\<rparr>, 0xF0) \<and>
   (d < 0x80 \<longrightarrow> accept_v2 (s\<lparr>mMessage := 0xF0, mExpected := -1\<rparr>) d =
      Some (s\<lparr>mMessage := 0xF0, mExpected := -1\<rparr>, 0)) \<and>
   ((\<forall>d \<in> set ds. d < 0x80) \<longrightarrow> feed_v2 (s\<lparr>mMessage := 0xF0, mExpected := -1\<rparr>) ds =
      Some (s\<lparr>mMessage := 0xF0, mExpected := -1\<rparr>)) \<and>
   accept_v2 (s\<lparr>mMessage := 0xF0, mExpected := -1\<rparr>) 0xF7 =
      Some (s\<lparr>mMessage := 0xF7, mExpected := 0\<rparr>, 0xF7)"
proof -
  let ?s1 = "s\<lparr>mMessage := 0xF0, mExpected := -1\<rparr>"
  have "accept_v2 s 0xF0 = Some (?s1, 0xF0)"
    by (simp add: eval_v2)
  moreover have "accept_v2 ?s1 d = Some (?s1, 0)" if "d < 0x80"
    using data_byte [OF that] by (simp add: accept_v2_def accept_end_v2_def word_sless_alt)
  moreover have "feed_v2 ?s1 ds = Some ?s1" if "\<forall>d \<in> set ds. d < 0x80"
    using that by (intro sysex_data_discarded_v2) simp_all
  moreover have "accept_v2 ?s1 0xF7 = Some (s\<lparr>mMessage := 0xF7, mExpected := 0\<rparr>, 0xF7)"
    by (simp add: eval_v2)
  ultimately show ?thesis
    by blast
qed

text \<open>
  Claim C6, \<open>SYSEX\<close> passthrough: \<open>accept\<close> returns 0xF0 at once on \<open>SYSEX\<close>, returns
  0 on every data byte that follows and leaves the state unchanged, and returns 0xF7
  at once on \<open>ENDEX\<close>.

  The second listing does all three (\<open>sysex_passthrough_v2\<close>). The first listing does
  the first two; on \<open>ENDEX\<close> it looks up element 7 of its table of seven, so the call
  has no defined result.
\<close>

theorem sysex_ENDEX_v1:
  "accept_v1 reset 0xF0 = Some (\<lparr>mMessage = 0xF0, mExpected = -1, mData = [0, 0]\<rparr>, 0xF0) \<and>
   accept_v1 \<lparr>mMessage = 0xF0, mExpected = -1, mData = [0, 0]\<rparr> 0x01 =
     Some (\<lparr>mMessage = 0xF0, mExpected = -1, mData = [0, 0]\<rparr>, 0) \<and>
   accept_v1 \<lparr>mMessage = 0xF0, mExpected = -1, mData = [0, 0]\<rparr> 0xF7 = None"
  by (simp add: eval_v1 reset_def)

lemma mExpected_sint:
  assumes "(e::int8_t) \<in> {-1, 0, 1, 2}"
  shows "sint e \<in> {-1, 0, 1, 2} \<and> (0 <s e \<longrightarrow> 2 - sint e \<in> {0, 1})"
  using assms by (auto simp: word_sless_alt)

text \<open>
  Claim C7: in every state reached from the reset state by calls of \<open>accept\<close>,
  \<open>mExpected\<close> is one of -1, 0, 1 and 2; a data byte is only ever written to
  \<open>mData[0]\<close> or \<open>mData[1]\<close> (the next call returns, that is no access leaves its
  array, the array keeps its two elements, and the index \<open>2 - mExpected\<close> of a write
  is 0 or 1); and the call changes \<open>mMessage\<close> only on a message byte that is not a
  realtime byte. Stated on the second listing.
\<close>

theorem parser_invariants:
  "\<exists>s. feed_v2 reset bs = Some s \<and> sint (mExpected s) \<in> {-1, 0, 1, 2} \<and>
       length (mData s) = 2 \<and>
       (0 <s mExpected s \<longrightarrow> 2 - sint (mExpected s) \<in> {0, 1}) \<and>
       (\<exists>s' r. accept_v2 s b = Some (s', r) \<and> length (mData s') = 2 \<and>
          (mMessage s' \<noteq> mMessage s \<longrightarrow> is_msg b \<and> \<not> is_rtmsg b))"
proof -
  from feed_v2_ok [OF reset_ok_v2] obtain s where
    s: "feed_v2 reset bs = Some s" "parser_ok_v2 s"
    by blast
  from accept_v2_ok [OF s(2)] obtain s' r where
    step: "accept_v2 s b = Some (s', r)" "parser_ok_v2 s'"
      "mMessage s' = mMessage s \<or> (0x80 \<le> b \<and> b < 0xF8)"
    by blast
  from step(3) have "mMessage s' \<noteq> mMessage s \<longrightarrow> is_msg b \<and> \<not> is_rtmsg b"
    by (auto simp: is_msg_iff is_rtmsg_iff not_le)
  moreover from s(2) have "mExpected s \<in> {-1, 0, 1, 2}" "length (mData s) = 2"
    by (simp_all add: parser_ok_v2_def)
  moreover from step(2) have "length (mData s') = 2"
    by (simp add: parser_ok_v2_def)
  ultimately show ?thesis
    using s(1) step(1) mExpected_sint [of "mExpected s"] by blast
qed

theorem parser_invariants_witness:
  "feed_v2 reset [0x90] = Some \<lparr>mMessage = 0x90, mExpected = 2, mData = [0, 0]\<rparr> \<and>
   0 <s (2 :: int8_t) \<and> 2 - sint (2 :: int8_t) \<in> {0, 1} \<and>
   accept_v2 \<lparr>mMessage = 0x90, mExpected = 2, mData = [0, 0]\<rparr> 0x80 =
     Some (\<lparr>mMessage = 0x80, mExpected = 2, mData = [0, 0]\<rparr>, 0) \<and>
   (0x80 :: uint8_t) \<noteq> 0x90 \<and> is_msg 0x80 \<and> \<not> is_rtmsg 0x80"
  using parser_invariants [of "[0x90]" "0x80"]
  by (simp add: eval_v2 reset_def)

text \<open>
  Claim C8: a data byte fed while \<open>mExpected\<close> is 0 and \<open>mMessage\<close> still has its reset
  value 0 is not stored into \<open>mData\<close>, and \<open>accept\<close> returns 0. Both listings: the
  only member that changes is \<open>mExpected\<close>, which the completion test re-arms to the
  table entry selected by the message byte 0, that is 2.
\<close>

theorem stray_data_byte:
  assumes "b < 0x80" and "mMessage s = 0" and "mExpected s = 0"
  shows "accept_v2 s b = Some (s\<lparr>mExpected := 2\<rparr>, 0) \<and> accept_v1 s b = Some (s\<lparr>mExpected := 2\<rparr>, 0)"
proof -
  from assms(1) have "\<not> 0xF8 \<le> b" and "\<not> 0x80 \<le> b"
    by (simp_all add: word_le_nat_alt word_less_nat_alt)
  moreover have "expected_bytes_v2 0 = Some 2" and "expected_bytes_v1 0 = Some 2"
    by (simp_all add: expected_bytes_v1_def expected_bytes_v2_def SYS_MESSAGES_def SYS_MSGS_def
        array_read_def midi_msg_bytes_v1_def midi_msg_bytes_v2_def)
  ultimately show ?thesis
    using assms(2,3)
    by (simp add: accept_v2_def accept_v1_def accept_end_v2_def accept_end_v1_def
        is_rtmsg_iff is_rtcmd_iff is_msg_iff is_cmd_iff word_sless_alt)
qed

theorem stray_data_byte_witness:
  "(0x11 :: uint8_t) < 0x80 \<and> mMessage reset = 0 \<and> mExpected reset = 0 \<and>
   accept_v2 reset 0x11 = Some (\<lparr>mMessage = 0, mExpected = 2, mData = [0, 0]\<rparr>, 0) \<and>
   accept_v1 reset 0x11 = Some (\<lparr>mMessage = 0, mExpected = 2, mData = [0, 0]\<rparr>, 0)"
  using stray_data_byte [of "0x11" reset] by (simp add: reset_def)

text \<open>
  The values \<open>accept\<close> returns. In the second listing every call from a state
  reached from the reset state returns, and returns 0 or a byte with the high bit set.
  In the first listing the same holds as long as no \<open>ENDEX\<close> is fed; a stream that
  holds \<open>ENDEX\<close> has no defined run.
\<close>

lemma return_value_range_v2:
  "\<exists>s. feed_v2 reset bs = Some s \<and>
      (\<exists>s' r. accept_v2 s b = Some (s', r) \<and> (r = 0 \<or> is_msg r))"
proof -
  from feed_v2_ok [OF reset_ok_v2] obtain s where
    s: "feed_v2 reset bs = Some s" "parser_ok_v2 s"
    by blast
  from accept_v2_ok [OF s(2)] obtain s' r where
    "accept_v2 s b = Some (s', r)" "r = 0 \<or> 0x80 \<le> r"
    by blast
  with s(1) show ?thesis
    by (auto simp: is_msg_iff)
qed

lemma return_value_range_v1:
  assumes "feed_v1 reset bs = Some s" and "b \<noteq> 0xF7"
  shows "\<exists>s' r. accept_v1 s b = Some (s', r) \<and> (r = 0 \<or> is_cmd r)"
proof -
  from feed_v1_ok [OF reset_ok_v1 assms(1)] have "parser_ok_v1 s" .
  from accept_v1_ok [OF this assms(2)] show ?thesis
    by (auto simp: is_cmd_iff)
qed

lemma feed_v1_ENDEX: "0xF7 \<in> set bs \<Longrightarrow> feed_v1 s bs = None"
proof (induction bs arbitrary: s)
  case Nil
  then show ?case by simp
next
  case (Cons b bs)
  show ?case
  proof (cases "b = 0xF7")
    case True
    then show ?thesis
      by (simp add: accept_v1_ENDEX)
  next
    case False
    with Cons.prems have "0xF7 \<in> set bs"
      by simp
    with Cons.IH show ?thesis
      by (simp split: option.splits)
  qed
qed


end
